theory Spec2Isabelle
  imports Main "HOL-Library.Word" "HOL-Library.List_Lexorder"
begin

section \<open>Strings of the program\<close>

text \<open>
  A string of the program is a sequence of 16-bit code units.  The default comparison
  of \<^verbatim>\<open>Array.prototype.sort\<close> orders two strings lexicographically by code unit;
  that is the order of lists over the (unsigned) order of words.
\<close>

type_synonym code_unit = "16 word"
type_synonym jsstring = "code_unit list"

definition js :: "string \<Rightarrow> jsstring" where
  "js s = map (\<lambda>c. of_nat (of_char c)) s"

text \<open>\<^verbatim>\<open>xs.join(sep)\<close> on an array of strings.\<close>

fun join :: "jsstring \<Rightarrow> jsstring list \<Rightarrow> jsstring" where
  "join sep [] = []"
| "join sep [x] = x"
| "join sep (x # y # ys) = x @ sep @ join sep (y # ys)"

section \<open>Room identifiers\<close>

text \<open>
  \<^verbatim>\<open>lib/crypto.ts\<close>:
  \<^verbatim>\<open>const sorted = [userId1, userId2].sort(); return `room_${sorted[0]}_${sorted[1]}`;\<close>
  The array always has two elements, so both index reads are in range.
\<close>

definition getRoomId :: "jsstring \<Rightarrow> jsstring \<Rightarrow> jsstring" where
  "getRoomId userId1 userId2 =
     (let sorted = sort [userId1, userId2]
      in js ''room_'' @ sorted ! 0 @ js ''_'' @ sorted ! 1)"

text \<open>The message store (\<^verbatim>\<open>lib/messages.ts\<close>) has its own copy of the function.\<close>

definition store_getRoomId :: "jsstring \<Rightarrow> jsstring \<Rightarrow> jsstring" where
  "store_getRoomId userId1 userId2 =
     (let sorted = sort [userId1, userId2]
      in js ''room_'' @ sorted ! 0 @ js ''_'' @ sorted ! 1)"

text \<open>
  \<^verbatim>\<open>ChatWindow.tsx\<close>, the room name used for join-room, send-message and typing on
  the socket: \<^verbatim>\<open>[currentUser.id, selectedUser.id].sort().join('_')\<close>.
\<close>

definition chatWindow_getRoomId :: "jsstring \<Rightarrow> jsstring \<Rightarrow> jsstring" where
  "chatWindow_getRoomId currentUserId selectedUserId =
     join (js ''_'') (sort [currentUserId, selectedUserId])"

section \<open>Encryption for a room\<close>



subsection \<open>The text encoder and decoder of the platform\<close>














subsection \<open>The cipher of the platform, and the functions of the module\<close>









section \<open>The message store\<close>

text \<open>
  \<^verbatim>\<open>lib/messages.ts\<close>.  The field \<^verbatim>\<open>id\<close> of a message and of a room is written
  \<open>id_msg\<close> and \<open>id_room\<close>.  A \<^verbatim>\<open>Date\<close> is its number of milliseconds.
\<close>

record Message =
  id_msg :: jsstring
  senderId :: jsstring
  senderName :: jsstring
  receiverId :: jsstring
  encryptedContent :: jsstring
  timestamp :: int
  isRead :: bool

record ChatRoom =
  id_room :: jsstring
  participants :: "jsstring list"
  messages :: "Message list"
  createdAt :: int

text \<open>The module-level \<^verbatim>\<open>Map<string, ChatRoom>\<close>, passed in and returned updated.\<close>

type_synonym chatRooms = "jsstring \<rightharpoonup> ChatRoom"

datatype store_error = Chat_room_not_found

text \<open>
  \<^verbatim>\<open>getOrCreateRoom\<close>: the room under the key is created when the map does not have
  the key, and the room under the key is returned.  \<open>now\<close> is the value of
  \<^verbatim>\<open>new Date()\<close>.
\<close>

definition getOrCreateRoom ::
  "chatRooms \<Rightarrow> jsstring \<Rightarrow> jsstring \<Rightarrow> int \<Rightarrow> ChatRoom \<times> chatRooms" where
  "getOrCreateRoom rooms userId1 userId2 now =
     (let roomId = store_getRoomId userId1 userId2
      in case rooms roomId of
           None \<Rightarrow>
             (let room = \<lparr>id_room = roomId, participants = [userId1, userId2],
                           messages = [], createdAt = now\<rparr>
              in (room, rooms(roomId \<mapsto> room)))
         | Some room \<Rightarrow> (room, rooms))"

text \<open>
  \<^verbatim>\<open>addMessage\<close>: \<open>uuid\<close> is the value of \<^verbatim>\<open>uuidv4()\<close> and \<open>now\<close> the value of
  \<^verbatim>\<open>new Date()\<close>; the throw is the result \<open>Inl Chat_room_not_found\<close>.
\<close>

definition addMessage ::
  "chatRooms \<Rightarrow> jsstring \<Rightarrow> jsstring \<Rightarrow> jsstring \<Rightarrow> jsstring \<Rightarrow> jsstring \<Rightarrow> jsstring \<Rightarrow> int
     \<Rightarrow> store_error + (Message \<times> chatRooms)" where
  "addMessage rooms roomId sender sender_name receiver content uuid now =
     (case rooms roomId of
        None \<Rightarrow> Inl Chat_room_not_found
      | Some room \<Rightarrow>
          (let message = \<lparr>id_msg = uuid, senderId = sender, senderName = sender_name,
                          receiverId = receiver, encryptedContent = content,
                          timestamp = now, isRead = False\<rparr>
           in Inr (message, rooms(roomId \<mapsto> room\<lparr>messages := messages room @ [message]\<rparr>))))"

text \<open>
  \<^verbatim>\<open>xs.slice(start)\<close> for an integer \<open>start\<close>: a negative start counts from the end
  and is clamped at 0, a positive one is clamped at the length.
\<close>

definition slice_from :: "'a list \<Rightarrow> int \<Rightarrow> 'a list" where
  "slice_from xs start =
     (let len = int (length xs);
          k = (if start < 0 then max (len + start) 0 else min start len)
      in drop (nat k) xs)"

text \<open>\<^verbatim>\<open>getMessages\<close>, for an integer limit: \<^verbatim>\<open>room.messages.slice(-limit)\<close>.\<close>

definition getMessages :: "chatRooms \<Rightarrow> jsstring \<Rightarrow> int \<Rightarrow> Message list" where
  "getMessages rooms roomId limit =
     (case rooms roomId of
        None \<Rightarrow> []
      | Some room \<Rightarrow> slice_from (messages room) (- limit))"

text \<open>The default value of the parameter \<^verbatim>\<open>limit\<close>.\<close>

definition default_limit :: int where
  "default_limit = 50"

definition markMessagesAsRead :: "chatRooms \<Rightarrow> jsstring \<Rightarrow> jsstring \<Rightarrow> chatRooms" where
  "markMessagesAsRead rooms roomId userId =
     (case rooms roomId of
        None \<Rightarrow> rooms
      | Some room \<Rightarrow>
          rooms(roomId \<mapsto> room\<lparr>messages :=
            map (\<lambda>msg. if receiverId msg = userId \<and> \<not> isRead msg
                        then msg\<lparr>isRead := True\<rparr> else msg)
              (messages room)\<rparr>))"

definition getUnreadCount :: "chatRooms \<Rightarrow> jsstring \<Rightarrow> jsstring \<Rightarrow> nat" where
  "getUnreadCount rooms roomId userId =
     (case rooms roomId of
        None \<Rightarrow> 0
      | Some room \<Rightarrow>
          length (filter (\<lambda>msg. receiverId msg = userId \<and> \<not> isRead msg) (messages room)))"

text \<open>
  Every room is stored under its own id: the only write to the map is the one of
  \<open>getOrCreateRoom\<close>.
\<close>

definition store_inv :: "chatRooms \<Rightarrow> bool" where
  "store_inv rooms = (\<forall>k room. rooms k = Some room \<longrightarrow> id_room room = k)"

section \<open>The messages route\<close>

text \<open>
  \<^verbatim>\<open>app/api/messages/route.ts\<close>.  An awaited promise either rejects (the handler's
  \<^verbatim>\<open>catch\<close> answers 500) or resolves to a value.  \<^verbatim>\<open>getServerSession\<close> resolves to a
  session or to \<^verbatim>\<open>null\<close>; the user of a session and the id of a user may be missing.
\<close>

datatype 'a awaited = Rejected | Resolved 'a

record SessionUser =
  id_user :: "jsstring option"
  name_user :: jsstring

record Session =
  user :: "SessionUser option"

text \<open>\<^verbatim>\<open>session?.user\<close> and \<^verbatim>\<open>session?.user?.id\<close>\<close>

definition session_user :: "Session option \<Rightarrow> SessionUser option" where
  "session_user session = (case session of None \<Rightarrow> None | Some s \<Rightarrow> user s)"

definition session_user_id :: "Session option \<Rightarrow> jsstring option" where
  "session_user_id session =
     (case session_user session of None \<Rightarrow> None | Some u \<Rightarrow> id_user u)"

text \<open>A missing value and the empty string are the string values that \<^verbatim>\<open>!v\<close> accepts.\<close>

definition truthy :: "jsstring option \<Rightarrow> bool" where
  "truthy v = (case v of None \<Rightarrow> False | Some s \<Rightarrow> s \<noteq> [])"

datatype response =
    Error_response jsstring nat
  | Messages_response "Message list" jsstring
  | Message_response Message

definition GET :: "chatRooms \<Rightarrow> Session option awaited \<Rightarrow> jsstring option \<Rightarrow> response" where
  "GET rooms getServerSession otherUserId =
     (case getServerSession of
        Rejected \<Rightarrow> Error_response (js ''Failed to fetch messages'') 500
      | Resolved session \<Rightarrow>
          (case session_user_id session of
             None \<Rightarrow> Error_response (js ''Unauthorized'') 401
           | Some uid \<Rightarrow>
               if uid = [] then Error_response (js ''Unauthorized'') 401
               else
                 (case otherUserId of
                    None \<Rightarrow> Error_response (js ''Other user ID is required'') 400
                  | Some other \<Rightarrow>
                      if other = [] then Error_response (js ''Other user ID is required'') 400
                      else
                        (let roomId = store_getRoomId uid other;
                             msgs = getMessages rooms roomId default_limit
                         in Messages_response msgs roomId))))"

text \<open>
  The body of a POST, with string fields that may be missing.  The calls of
  \<^verbatim>\<open>pusher.trigger\<close> are returned in order; \<open>pusher\<close> says whether a call resolves.
\<close>

record post_body =
  receiverId_body :: "jsstring option"
  encryptedContent_body :: "jsstring option"

datatype trigger =
    Trigger_new_message jsstring Message
  | Trigger_message_received jsstring jsstring jsstring jsstring

definition POST ::
  "chatRooms \<Rightarrow> Session option awaited \<Rightarrow> post_body awaited \<Rightarrow> (trigger \<Rightarrow> bool)
     \<Rightarrow> jsstring \<Rightarrow> int \<Rightarrow> int \<Rightarrow> response \<times> chatRooms \<times> trigger list" where
  "POST rooms getServerSession body pusher uuid now_room now_message =
     (let failed = Error_response (js ''Failed to send message'') 500;
          unauthorized = Error_response (js ''Unauthorized'') 401;
          required = Error_response (js ''Receiver ID and encrypted content are required'') 400
      in case getServerSession of
           Rejected \<Rightarrow> (failed, rooms, [])
         | Resolved session \<Rightarrow>
             (case session_user session of
                None \<Rightarrow> (unauthorized, rooms, [])
              | Some u \<Rightarrow>
                  (case id_user u of
                     None \<Rightarrow> (unauthorized, rooms, [])
                   | Some uid \<Rightarrow>
                       if uid = [] then (unauthorized, rooms, [])
                       else
                         (case body of
                            Rejected \<Rightarrow> (failed, rooms, [])
                          | Resolved b \<Rightarrow>
                              (case (receiverId_body b, encryptedContent_body b) of
                                 (Some receiver, Some content) \<Rightarrow>
                                   if receiver = [] \<or> content = [] then (required, rooms, [])
                                   else
                                     (let (room, rooms1) =
                                            getOrCreateRoom rooms uid receiver now_room
                                      in case addMessage rooms1 (id_room room) uid
                                                (name_user u) receiver content
                                                uuid now_message of
                                           Inl e \<Rightarrow> (failed, rooms1, [])
                                         | Inr (message, rooms2) \<Rightarrow>
                                             (let t1 = Trigger_new_message
                                                         (js ''chat-'' @ id_room room) message;
                                                  t2 = Trigger_message_received
                                                         (js ''user-'' @ receiver) (id_room room)
                                                         uid (name_user u)
                                              in if \<not> pusher t1 then (failed, rooms2, [t1])
                                                 else if \<not> pusher t2
                                                   then (failed, rooms2, [t1, t2])
                                                 else (Message_response message, rooms2,
                                                       [t1, t2])))
                               | _ \<Rightarrow> (required, rooms, []))))))"

section \<open>The chat window's message list\<close>

text \<open>
  \<^verbatim>\<open>components/ChatWindow.tsx\<close>.  A message of the client has two more optional fields.
\<close>

record ClientMessage = Message +
  decryptedContent :: "jsstring option"
  decryptionFailed :: bool

text \<open>
  \<^verbatim>\<open>decryptMessage\<close>.  The call of \<^verbatim>\<open>decryptFromRoom\<close> on the platform of the
  browser is the parameter \<open>decrypt\<close>: \<open>None\<close> when its promise rejects.
\<close>

definition decryptMessage ::
  "(jsstring \<Rightarrow> jsstring \<Rightarrow> jsstring \<Rightarrow> jsstring option) \<Rightarrow> jsstring
     \<Rightarrow> ClientMessage \<Rightarrow> ClientMessage" where
  "decryptMessage decrypt currentUserId msg =
     (if truthy (decryptedContent msg) then msg
      else
        (let otherUserId =
               (if senderId msg = currentUserId then receiverId msg else senderId msg)
         in case decrypt (encryptedContent msg) currentUserId otherUserId of
              Some decrypted \<Rightarrow> msg\<lparr>decryptedContent := Some decrypted\<rparr>
            | None \<Rightarrow> msg\<lparr>decryptionFailed := True\<rparr>))"

text \<open>
  The state of the component: the list \<^verbatim>\<open>messages\<close>, and the messages whose
  decryption \<^verbatim>\<open>handleNewMessage\<close> has started and whose \<^verbatim>\<open>then\<close> callback has not
  run yet.
\<close>

record client =
  messages_client :: "ClientMessage list"
  decrypting :: "ClientMessage list"

text \<open>
  \<^verbatim>\<open>handleNewMessage\<close>, the handler of every new-message event: its first updater
  returns the list as it is, and starts the decryption when the id is not in it.
\<close>

definition handleNewMessage :: "client \<Rightarrow> ClientMessage \<Rightarrow> client" where
  "handleNewMessage st message =
     (let prev = messages_client st;
          exists = list_ex (\<lambda>m. id_msg m = id_msg message) prev
      in if exists then st else st\<lparr>decrypting := decrypting st @ [message]\<rparr>)"

text \<open>
  The \<^verbatim>\<open>then\<close> callback of the \<open>i\<close>-th decryption under way: the second updater looks
  the id up again and appends the decrypted message when it is still absent.
\<close>

definition decrypted_then ::
  "(jsstring \<Rightarrow> jsstring \<Rightarrow> jsstring \<Rightarrow> jsstring option) \<Rightarrow> jsstring
     \<Rightarrow> client \<Rightarrow> nat \<Rightarrow> client" where
  "decrypted_then decrypt currentUserId st i =
     (if i < length (decrypting st) then
        (let decrypted = decryptMessage decrypt currentUserId (decrypting st ! i);
             current = messages_client st;
             stillExists = list_ex (\<lambda>m. id_msg m = id_msg decrypted) current
         in \<lparr>messages_client = (if stillExists then current else current @ [decrypted]),
             decrypting = take i (decrypting st) @ drop (Suc i) (decrypting st)\<rparr>)
      else st)"

text \<open>
  \<^verbatim>\<open>sendMessage\<close>, after the POST has answered with \<^verbatim>\<open>data.message\<close>:
  \<^verbatim>\<open>setMessages((prev) => [...prev, messageWithContent])\<close>.
\<close>

definition messageWithContent :: "Message \<Rightarrow> jsstring \<Rightarrow> ClientMessage" where
  "messageWithContent data_message newMessage =
     \<lparr>id_msg = id_msg data_message, senderId = senderId data_message,
      senderName = senderName data_message, receiverId = receiverId data_message,
      encryptedContent = encryptedContent data_message, timestamp = timestamp data_message,
      isRead = isRead data_message,
      decryptedContent = Some newMessage, decryptionFailed = False\<rparr>"

definition sendMessage_insert :: "client \<Rightarrow> Message \<Rightarrow> jsstring \<Rightarrow> client" where
  "sendMessage_insert st data_message newMessage =
     st\<lparr>messages_client := messages_client st @ [messageWithContent data_message newMessage]\<rparr>"

text \<open>
  \<^verbatim>\<open>fetchMessages\<close>, after the GET has answered with \<^verbatim>\<open>data.messages\<close> and every
  message of the answer has been through \<^verbatim>\<open>decryptMessage\<close>: \<^verbatim>\<open>setMessages(decrypted)\<close>
  replaces the list.  A message of the answer has neither optional field.
\<close>

definition json_message :: "Message \<Rightarrow> ClientMessage" where
  "json_message data_message =
     \<lparr>id_msg = id_msg data_message, senderId = senderId data_message,
      senderName = senderName data_message, receiverId = receiverId data_message,
      encryptedContent = encryptedContent data_message, timestamp = timestamp data_message,
      isRead = isRead data_message,
      decryptedContent = None, decryptionFailed = False\<rparr>"

definition fetchMessages_set ::
  "(jsstring \<Rightarrow> jsstring \<Rightarrow> jsstring \<Rightarrow> jsstring option) \<Rightarrow> jsstring
     \<Rightarrow> client \<Rightarrow> Message list \<Rightarrow> client" where
  "fetchMessages_set decrypt currentUserId st data_messages =
     (let decrypted = map (\<lambda>msg. decryptMessage decrypt currentUserId (json_message msg))
                        data_messages
      in st\<lparr>messages_client := decrypted\<rparr>)"

text \<open>
  The events that write the list, and a run of the component over a sequence of them.
  The only listener for new messages is the one on the socket; the component does not
  subscribe to the relay.
\<close>

datatype event =
    New_message ClientMessage
  | Decryption_done nat
  | Local_insert Message jsstring
  | Fetched "Message list"

fun step ::
  "(jsstring \<Rightarrow> jsstring \<Rightarrow> jsstring \<Rightarrow> jsstring option) \<Rightarrow> jsstring
     \<Rightarrow> client \<Rightarrow> event \<Rightarrow> client" where
  "step dfr cur st (New_message message) = handleNewMessage st message"
| "step dfr cur st (Decryption_done i) = decrypted_then dfr cur st i"
| "step dfr cur st (Local_insert data_message newMessage) =
     sendMessage_insert st data_message newMessage"
| "step dfr cur st (Fetched data_messages) = fetchMessages_set dfr cur st data_messages"

fun run ::
  "(jsstring \<Rightarrow> jsstring \<Rightarrow> jsstring \<Rightarrow> jsstring option) \<Rightarrow> jsstring
     \<Rightarrow> client \<Rightarrow> event list \<Rightarrow> client" where
  "run dfr cur st [] = st"
| "run dfr cur st (e # es) = run dfr cur (step dfr cur st e) es"

text \<open>
  Every local insert of the run finds its id absent from the list, as it is when the
  sender emits a message on the socket only after inserting it, and every fetched
  answer has pairwise distinct ids.
\<close>

fun writes_distinct ::
  "(jsstring \<Rightarrow> jsstring \<Rightarrow> jsstring \<Rightarrow> jsstring option) \<Rightarrow> jsstring
     \<Rightarrow> client \<Rightarrow> event list \<Rightarrow> bool" where
  "writes_distinct dfr cur st [] = True"
| "writes_distinct dfr cur st (e # es) =
     ((case e of
         Local_insert data_message newMessage \<Rightarrow>
           \<not> list_ex (\<lambda>m. id_msg m = id_msg data_message) (messages_client st)
       | Fetched data_messages \<Rightarrow> distinct (map id_msg data_messages)
       | _ \<Rightarrow> True)
      \<and> writes_distinct dfr cur (step dfr cur st e) es)"

text \<open>No fetched answer of the events lacks the id.\<close>

fun keeps :: "jsstring \<Rightarrow> event list \<Rightarrow> bool" where
  "keeps k [] = True"
| "keeps k (e # es) =
     ((case e of Fetched data_messages \<Rightarrow> k \<in> set (map id_msg data_messages) | _ \<Rightarrow> True)
      \<and> keeps k es)"

text \<open>The ids the component holds, in the list or under decryption.\<close>

definition known :: "client \<Rightarrow> jsstring set" where
  "known st = set (map id_msg (messages_client st)) \<union> set (map id_msg (decrypting st))"

section \<open>Example data\<close>

definition alice :: jsstring where
  "alice = js ''alice''"

definition bob :: jsstring where
  "bob = js ''bob''"

definition example_message :: Message where
  "example_message =
     \<lparr>id_msg = js ''m1'', senderId = alice, senderName = js ''Alice'', receiverId = bob,
      encryptedContent = js ''q83vEjRWeJA='', timestamp = 1, isRead = False\<rparr>"

definition example_reply :: Message where
  "example_reply =
     \<lparr>id_msg = js ''m2'', senderId = bob, senderName = js ''Bob'', receiverId = alice,
      encryptedContent = js ''EjRWeJCrze8='', timestamp = 2, isRead = False\<rparr>"

definition example_room :: ChatRoom where
  "example_room =
     \<lparr>id_room = js ''room_alice_bob'', participants = [alice, bob],
      messages = [example_message, example_reply], createdAt = 0\<rparr>"

definition example_rooms :: chatRooms where
  "example_rooms = [js ''room_alice_bob'' \<mapsto> example_room]"

definition example_duplicate :: Message where
  "example_duplicate =
     \<lparr>id_msg = js ''m1'', senderId = alice, senderName = js ''Alice'', receiverId = bob,
      encryptedContent = js ''abcd'', timestamp = 3, isRead = False\<rparr>"



definition decrypt_fails :: "jsstring \<Rightarrow> jsstring \<Rightarrow> jsstring \<Rightarrow> jsstring option" where
  "decrypt_fails encryptedData myUserId otherUserId = None"

definition empty_client :: client where
  "empty_client = \<lparr>messages_client = [], decrypting = []\<rparr>"

definition no_session_user :: "Session option" where
  "no_session_user = Some \<lparr>user = Some \<lparr>id_user = Some [], name_user = js ''Mallory''\<rparr>\<rparr>"

text \<open>
  Bob's window: the first fetch finds no message, alice's message arrives twice, both
  decryptions complete, a later fetch finds the message, and bob's own reply is inserted
  after its POST.
\<close>

definition example_events :: "event list" where
  "example_events =
     [Fetched [],
      New_message (messageWithContent example_message (js ''hi'')),
      New_message (messageWithContent example_message (js ''hi'')),
      Decryption_done 0,
      Decryption_done 0,
      Fetched [example_message],
      Local_insert example_reply (js ''ok'')]"

section \<open>Properties of the room identifiers\<close>

lemma sort_pair: "sort [a, b] = [min a b, max a b]"
  for a b :: "'a::linorder"
  by (auto simp: min_def max_def)

lemma getRoomId_min_max:
  "getRoomId a b = js ''room_'' @ min a b @ js ''_'' @ max a b"
  by (simp add: getRoomId_def sort_pair del: sort_key_simps)

lemma store_getRoomId_min_max:
  "store_getRoomId a b = js ''room_'' @ min a b @ js ''_'' @ max a b"
  by (simp add: store_getRoomId_def sort_pair del: sort_key_simps)

lemma chatWindow_getRoomId_min_max:
  "chatWindow_getRoomId a b = min a b @ js ''_'' @ max a b"
  by (simp add: chatWindow_getRoomId_def sort_pair del: sort_key_simps)

lemma store_getRoomId_commute: "store_getRoomId a b = store_getRoomId b a"
  by (simp add: store_getRoomId_min_max min.commute max.commute)

text \<open>
  C3: for all user ids \<open>a\<close> and \<open>b\<close>, \<open>getRoomId a b = getRoomId b a\<close>, and the common
  value is \<open>"room_" + min(a,b) + "_" + max(a,b)\<close>, with \<open>min\<close> and \<open>max\<close> taken in the
  lexicographic order of strings.  The same holds of the message store's copy.
\<close>

theorem getRoomId_commutative_formula:
  "getRoomId a b = getRoomId b a
   \<and> getRoomId a b = js ''room_'' @ min a b @ js ''_'' @ max a b
   \<and> store_getRoomId a b = store_getRoomId b a
   \<and> store_getRoomId a b = js ''room_'' @ min a b @ js ''_'' @ max a b"
  by (simp add: getRoomId_min_max store_getRoomId_min_max min.commute max.commute)

text \<open>
  The room name of the chat window is the sorted pair joined by \<open>_\<close>: the room id of the
  other two functions without its prefix \<open>room_\<close>, and so never that room id.
\<close>

lemma chatWindow_room_unprefixed:
  "chatWindow_getRoomId a b = min a b @ js ''_'' @ max a b
   \<and> chatWindow_getRoomId a b = chatWindow_getRoomId b a
   \<and> getRoomId a b = js ''room_'' @ chatWindow_getRoomId a b
   \<and> store_getRoomId a b = js ''room_'' @ chatWindow_getRoomId a b
   \<and> chatWindow_getRoomId a b \<noteq> getRoomId a b"
proof -
  have "length (chatWindow_getRoomId a b) \<noteq> length (getRoomId a b)"
    by (simp add: chatWindow_getRoomId_min_max getRoomId_min_max js_def)
  then have "chatWindow_getRoomId a b \<noteq> getRoomId a b"
    by metis
  then show ?thesis
    by (simp add: chatWindow_getRoomId_min_max getRoomId_min_max store_getRoomId_min_max
        min.commute max.commute)
qed

text \<open>
  C4 at the pair alice, bob: the crypto module and the message store compute the room id
  \<open>room_alice_bob\<close>, and the chat window joins and sends to the socket room \<open>alice_bob\<close>,
  where the claim has the same string for all three.
\<close>

theorem chatWindow_room_differs:
  "chatWindow_getRoomId alice bob = js ''alice_bob''
   \<and> getRoomId alice bob = js ''room_alice_bob''
   \<and> store_getRoomId alice bob = js ''room_alice_bob''
   \<and> chatWindow_getRoomId alice bob \<noteq> getRoomId alice bob"
  by (simp add: chatWindow_getRoomId_min_max getRoomId_min_max store_getRoomId_min_max
      alice_def bob_def js_def min_def max_def)

section \<open>Properties of the encryption for a room\<close>

subsection \<open>Decoding what the encoder wrote\<close>



















subsection \<open>Code points and code units\<close>















subsection \<open>Encrypting and decrypting\<close>














section \<open>Properties of the message store\<close>

lemma store_inv_empty: "store_inv Map.empty"
  by (simp add: store_inv_def)

lemma store_inv_getOrCreateRoom:
  "store_inv rooms \<Longrightarrow> store_inv (snd (getOrCreateRoom rooms u1 u2 now))"
  by (auto simp: store_inv_def getOrCreateRoom_def Let_def split: option.splits)

lemma store_inv_addMessage:
  "store_inv rooms \<Longrightarrow> addMessage rooms rid s sn r c uuid now = Inr (m, rooms')
     \<Longrightarrow> store_inv rooms'"
  by (auto simp: store_inv_def addMessage_def Let_def split: option.splits if_splits)

lemma store_inv_markMessagesAsRead:
  "store_inv rooms \<Longrightarrow> store_inv (markMessagesAsRead rooms rid u)"
  by (auto simp: store_inv_def markMessagesAsRead_def split: option.splits if_splits)

lemma example_rooms_lookup: "example_rooms (js ''room_alice_bob'') = Some example_room"
  by (simp add: example_rooms_def)

lemma store_inv_example: "store_inv example_rooms"
  by (simp add: store_inv_def example_rooms_def example_room_def)

text \<open>
  For a limit of at least 1 the result is the last \<open>limit\<close> messages (all of them when
  there are fewer), in the order of the room's list.
\<close>

lemma slice_from_last:
  "0 < n \<Longrightarrow> slice_from xs (- n) = drop (length xs - nat n) xs"
  by (auto simp: slice_from_def Let_def max_def nat_diff_distrib'
      intro: arg_cong[where f = "\<lambda>k. drop k xs"])

lemma getMessages_positive_limit:
  "rooms roomId = Some room \<Longrightarrow> 0 < limit \<Longrightarrow>
     getMessages rooms roomId limit
       = drop (length (messages room) - nat limit) (messages room)
     \<and> int (length (getMessages rooms roomId limit)) \<le> limit"
  by (auto simp: getMessages_def slice_from_last)

text \<open>
  C5 at the limit 0: \<^verbatim>\<open>slice(-0)\<close> is \<^verbatim>\<open>slice(0)\<close>, so both messages of the room
  are returned, where the claim allows none.
\<close>

theorem getMessages_limit_zero:
  "getMessages example_rooms (js ''room_alice_bob'') 0 = [example_message, example_reply]
   \<and> length (getMessages example_rooms (js ''room_alice_bob'') 0) = 2"
  by (simp add: getMessages_def example_rooms_lookup slice_from_def example_room_def)

text \<open>
  C6, as the claim states it, fails: the id is the value of \<^verbatim>\<open>uuidv4()\<close>, taken without
  a look at the stored ids.  When that value is \<open>m1\<close>, the id of the first message of the
  room, the message is appended all the same and the room holds the id twice.
\<close>

theorem addMessage_repeats_id:
  "addMessage example_rooms (js ''room_alice_bob'') alice (js ''Alice'') bob (js ''abcd'')
     (js ''m1'') 3
     = Inr (example_duplicate,
            example_rooms(js ''room_alice_bob'' \<mapsto>
              example_room\<lparr>messages := [example_message, example_reply, example_duplicate]\<rparr>))
   \<and> map id_msg [example_message, example_reply, example_duplicate]
       = [js ''m1'', js ''m2'', js ''m1'']"
  by (simp add: addMessage_def example_rooms_lookup example_duplicate_def example_room_def
      example_message_def example_reply_def Let_def)

text \<open>
  C6, amended: \<open>addMessage\<close> fails with the room-not-found error exactly when the map has
  no room under \<open>roomId\<close>.  When it has one, the call returns one new message, built from
  the arguments, with \<open>isRead = False\<close> and with the value of \<^verbatim>\<open>uuidv4()\<close> as its id; the
  room's list is the old list followed by that message, nothing else of the room changes,
  and no other room changes.  The ids of the room are pairwise distinct afterwards exactly
  when they were before and the value of \<^verbatim>\<open>uuidv4()\<close> is not among them.
\<close>

theorem addMessage_appends:
  "(addMessage rooms roomId s sn r c uuid now = Inl Chat_room_not_found) = (rooms roomId = None)
   \<and> (\<forall>room. rooms roomId = Some room \<longrightarrow>
        (\<exists>message rooms' room'.
           addMessage rooms roomId s sn r c uuid now = Inr (message, rooms')
           \<and> message = \<lparr>id_msg = uuid, senderId = s, senderName = sn, receiverId = r,
                         encryptedContent = c, timestamp = now, isRead = False\<rparr>
           \<and> rooms' roomId = Some room'
           \<and> messages room' = messages room @ [message]
           \<and> room'\<lparr>messages := messages room\<rparr> = room
           \<and> (\<forall>k. k \<noteq> roomId \<longrightarrow> rooms' k = rooms k)
           \<and> (distinct (map id_msg (messages room'))
                \<longleftrightarrow> distinct (map id_msg (messages room))
                    \<and> uuid \<notin> id_msg ` set (messages room))))"
proof (cases "rooms roomId")
  case None
  then show ?thesis by (simp add: addMessage_def)
next
  case (Some room)
  then show ?thesis by (auto simp: addMessage_def Let_def)
qed

theorem addMessage_appends_witness:
  "example_rooms (js ''room_alice_bob'') = Some example_room
   \<and> js ''m3'' \<notin> id_msg ` set (messages example_room)
   \<and> distinct (map id_msg (messages example_room))
   \<and> (\<exists>message rooms' room'.
         addMessage example_rooms (js ''room_alice_bob'') alice (js ''Alice'') bob (js ''abcd'')
           (js ''m3'') 3 = Inr (message, rooms')
         \<and> message = \<lparr>id_msg = js ''m3'', senderId = alice, senderName = js ''Alice'',
                       receiverId = bob, encryptedContent = js ''abcd'', timestamp = 3,
                       isRead = False\<rparr>
         \<and> rooms' (js ''room_alice_bob'') = Some room'
         \<and> messages room' = messages example_room @ [message]
         \<and> room'\<lparr>messages := messages example_room\<rparr> = example_room
         \<and> (\<forall>k. k \<noteq> js ''room_alice_bob'' \<longrightarrow> rooms' k = example_rooms k)
         \<and> distinct (map id_msg (messages room')))
   \<and> addMessage example_rooms (js ''room_bob_carol'') alice (js ''Alice'') bob (js ''abcd'')
        (js ''m3'') 3 = Inl Chat_room_not_found"
proof -
  have h: "example_rooms (js ''room_alice_bob'') = Some example_room"
    by (rule example_rooms_lookup)
  have absent: "example_rooms (js ''room_bob_carol'') = None"
    by (simp add: example_rooms_def js_def)
  have fresh: "js ''m3'' \<notin> id_msg ` set (messages example_room)"
    by (simp add: example_room_def example_message_def example_reply_def js_def)
  have d: "distinct (map id_msg (messages example_room))"
    by (simp add: example_room_def example_message_def example_reply_def js_def)
  note present = addMessage_appends[of example_rooms "js ''room_alice_bob''" alice "js ''Alice''"
      bob "js ''abcd''" "js ''m3''" 3, THEN conjunct2, rule_format, OF h]
  have missing: "addMessage example_rooms (js ''room_bob_carol'') alice (js ''Alice'') bob
        (js ''abcd'') (js ''m3'') 3 = Inl Chat_room_not_found"
    using addMessage_appends[of example_rooms "js ''room_bob_carol''" alice "js ''Alice''" bob
      "js ''abcd''" "js ''m3''" 3] absent
    by simp
  show ?thesis
    using h fresh d present missing by (simp only: simp_thms)
qed

lemma unread_after_mark:
  "filter (\<lambda>msg. receiverId msg = u \<and> \<not> isRead msg)
     (map (\<lambda>msg. if receiverId msg = u \<and> \<not> isRead msg then msg\<lparr>isRead := True\<rparr> else msg)
        ms) = []"
  by (induction ms) auto

text \<open>
  C7: after \<open>markMessagesAsRead rooms roomId u\<close> the unread count of \<open>u\<close> in that room is
  0.  The call changes no other room; in the room itself it changes nothing but the
  messages, keeps their number and order, changes no field of a message other than
  \<open>isRead\<close>, and changes no message whose receiver is not \<open>u\<close> or that was read already.
\<close>

theorem markMessagesAsRead_unread_zero:
  "getUnreadCount (markMessagesAsRead rooms roomId u) roomId u = 0
   \<and> (\<forall>k. k \<noteq> roomId \<longrightarrow> markMessagesAsRead rooms roomId u k = rooms k)
   \<and> (\<forall>room. rooms roomId = Some room \<longrightarrow>
        (\<exists>room'. markMessagesAsRead rooms roomId u roomId = Some room'
           \<and> room'\<lparr>messages := messages room\<rparr> = room
           \<and> length (messages room') = length (messages room)
           \<and> (\<forall>i < length (messages room).
                 (messages room' ! i)\<lparr>isRead := isRead (messages room ! i)\<rparr> = messages room ! i
                 \<and> (receiverId (messages room ! i) \<noteq> u
                      \<longrightarrow> messages room' ! i = messages room ! i)
                 \<and> (isRead (messages room ! i) \<longrightarrow> messages room' ! i = messages room ! i))))"
proof (cases "rooms roomId")
  case None
  then show ?thesis by (simp add: markMessagesAsRead_def getUnreadCount_def)
next
  case (Some room)
  then show ?thesis
    by (simp add: markMessagesAsRead_def getUnreadCount_def unread_after_mark)
qed

theorem markMessagesAsRead_unread_zero_witness:
  "example_rooms (js ''room_alice_bob'') = Some example_room
   \<and> getUnreadCount example_rooms (js ''room_alice_bob'') bob = 1
   \<and> getUnreadCount (markMessagesAsRead example_rooms (js ''room_alice_bob'') bob)
        (js ''room_alice_bob'') bob = 0
   \<and> receiverId (messages example_room ! 1) \<noteq> bob
   \<and> (\<exists>room'. markMessagesAsRead example_rooms (js ''room_alice_bob'') bob
                  (js ''room_alice_bob'') = Some room'
         \<and> length (messages room') = 2
         \<and> messages room' ! 1 = example_reply)"
proof -
  have h: "example_rooms (js ''room_alice_bob'') = Some example_room"
    by (rule example_rooms_lookup)
  have before: "getUnreadCount example_rooms (js ''room_alice_bob'') bob = 1"
    unfolding getUnreadCount_def h
    by (simp add: example_room_def example_message_def example_reply_def alice_def bob_def
        js_def)
  have other: "receiverId (messages example_room ! 1) \<noteq> bob"
    by (simp add: example_room_def example_reply_def alice_def bob_def js_def)
  have len: "length (messages example_room) = 2"
    by (simp add: example_room_def)
  have msgs: "messages example_room = [example_message, example_reply]"
    by (simp add: example_room_def)
  note spec = markMessagesAsRead_unread_zero[of example_rooms "js ''room_alice_bob''" bob]
  from spec have zero:
    "getUnreadCount (markMessagesAsRead example_rooms (js ''room_alice_bob'') bob)
        (js ''room_alice_bob'') bob = 0"
    by (rule conjunct1)
  from spec[THEN conjunct2, THEN conjunct2, rule_format, OF h]
  obtain room' where r: "markMessagesAsRead example_rooms (js ''room_alice_bob'') bob
                  (js ''room_alice_bob'') = Some room'"
    and l: "length (messages room') = length (messages example_room)"
    and same: "\<forall>i < length (messages example_room).
                 (messages room' ! i)\<lparr>isRead := isRead (messages example_room ! i)\<rparr>
                   = messages example_room ! i
                 \<and> (receiverId (messages example_room ! i) \<noteq> bob
                      \<longrightarrow> messages room' ! i = messages example_room ! i)
                 \<and> (isRead (messages example_room ! i)
                      \<longrightarrow> messages room' ! i = messages example_room ! i)"
    by (elim exE conjE)
  from same[rule_format, of 1] other have "messages room' ! 1 = messages example_room ! 1"
    by (simp add: len)
  with r l have "\<exists>room'. markMessagesAsRead example_rooms (js ''room_alice_bob'') bob
                  (js ''room_alice_bob'') = Some room'
         \<and> length (messages room') = 2
         \<and> messages room' ! 1 = example_reply"
    by (simp add: msgs)
  with h before zero other show ?thesis by (simp only: simp_thms)
qed

text \<open>
  C10: for a room id under which the map has no room, \<open>getMessages\<close> returns the empty
  list for every limit, \<open>getUnreadCount\<close> returns 0, and \<open>markMessagesAsRead\<close> returns the
  map as it is.
\<close>

theorem absent_room_reads_empty:
  "rooms roomId = None \<Longrightarrow>
     getMessages rooms roomId limit = []
     \<and> getUnreadCount rooms roomId u = 0
     \<and> markMessagesAsRead rooms roomId u = rooms"
  by (simp add: getMessages_def getUnreadCount_def markMessagesAsRead_def)

theorem absent_room_reads_empty_witness:
  "example_rooms (js ''room_alice_carol'') = None
   \<and> getMessages example_rooms (js ''room_alice_carol'') default_limit = []
   \<and> getUnreadCount example_rooms (js ''room_alice_carol'') alice = 0
   \<and> markMessagesAsRead example_rooms (js ''room_alice_carol'') alice = example_rooms"
proof -
  have absent: "example_rooms (js ''room_alice_carol'') = None"
    by (simp add: example_rooms_def js_def)
  from absent
    absent_room_reads_empty[of example_rooms "js ''room_alice_carol''" default_limit alice,
      OF absent]
  show ?thesis by (simp only: simp_thms)
qed

text \<open>
  C8: in a map that stores every room under its own id, \<open>getOrCreateRoom\<close> for a pair, in
  either order of the pair, returns the room stored under \<open>room(u1,u2)\<close>, whose id is
  \<open>room(u1,u2)\<close>.  A room that is there is returned as it is and the map is unchanged; a
  room that is absent is created, empty, under that key only.  Every later call, in
  either order, returns the same room and leaves the map unchanged.
\<close>

theorem getOrCreateRoom_one_room_per_pair:
  assumes "store_inv rooms"
      and "getOrCreateRoom rooms u1 u2 now = (room, rooms')"
  shows "id_room room = store_getRoomId u1 u2
    \<and> store_getRoomId u1 u2 = js ''room_'' @ min u1 u2 @ js ''_'' @ max u1 u2
    \<and> id_room (fst (getOrCreateRoom rooms u2 u1 now)) = store_getRoomId u1 u2
    \<and> rooms' (store_getRoomId u1 u2) = Some room
    \<and> (\<forall>k. k \<noteq> store_getRoomId u1 u2 \<longrightarrow> rooms' k = rooms k)
    \<and> (\<forall>r. rooms (store_getRoomId u1 u2) = Some r \<longrightarrow>
           room = r \<and> rooms' = rooms \<and> getOrCreateRoom rooms u2 u1 now = (r, rooms))
    \<and> (rooms (store_getRoomId u1 u2) = None \<longrightarrow>
           room = \<lparr>id_room = store_getRoomId u1 u2, participants = [u1, u2],
                    messages = [], createdAt = now\<rparr>)
    \<and> getOrCreateRoom rooms' u1 u2 later = (room, rooms')
    \<and> getOrCreateRoom rooms' u2 u1 later = (room, rooms')
    \<and> store_inv rooms'"
proof (cases "rooms (store_getRoomId u1 u2)")
  case None
  with assms show ?thesis
    using store_getRoomId_commute[of u2 u1] store_getRoomId_min_max[of u1 u2]
    by (auto simp: store_inv_def getOrCreateRoom_def Let_def split: if_splits)
next
  case (Some r)
  with assms show ?thesis
    using store_getRoomId_commute[of u2 u1] store_getRoomId_min_max[of u1 u2]
    by (auto simp: store_inv_def getOrCreateRoom_def Let_def)
qed

theorem getOrCreateRoom_one_room_per_pair_witness:
  "store_inv Map.empty
   \<and> getOrCreateRoom Map.empty bob alice 7 =
        (\<lparr>id_room = js ''room_alice_bob'', participants = [bob, alice], messages = [],
            createdAt = 7\<rparr>,
         [js ''room_alice_bob'' \<mapsto>
            \<lparr>id_room = js ''room_alice_bob'', participants = [bob, alice], messages = [],
              createdAt = 7\<rparr>])
   \<and> getOrCreateRoom
          [js ''room_alice_bob'' \<mapsto>
            \<lparr>id_room = js ''room_alice_bob'', participants = [bob, alice], messages = [],
              createdAt = 7\<rparr>] alice bob 9 =
        (\<lparr>id_room = js ''room_alice_bob'', participants = [bob, alice], messages = [],
            createdAt = 7\<rparr>,
         [js ''room_alice_bob'' \<mapsto>
            \<lparr>id_room = js ''room_alice_bob'', participants = [bob, alice], messages = [],
              createdAt = 7\<rparr>])
   \<and> store_inv
         [js ''room_alice_bob'' \<mapsto>
            \<lparr>id_room = js ''room_alice_bob'', participants = [bob, alice], messages = [],
              createdAt = 7\<rparr>]"
proof -
  let ?room = "\<lparr>id_room = js ''room_alice_bob'', participants = [bob, alice], messages = [],
                 createdAt = 7\<rparr>"
  have key: "store_getRoomId bob alice = js ''room_alice_bob''"
    by (simp add: store_getRoomId_min_max alice_def bob_def js_def min_def max_def)
  have created: "getOrCreateRoom Map.empty bob alice 7 = (?room, [js ''room_alice_bob'' \<mapsto> ?room])"
    by (simp add: getOrCreateRoom_def key Let_def)
  note spec = getOrCreateRoom_one_room_per_pair[OF store_inv_empty created, of 9]
  from spec have later:
    "getOrCreateRoom [js ''room_alice_bob'' \<mapsto> ?room] alice bob 9
       = (?room, [js ''room_alice_bob'' \<mapsto> ?room])"
    by (elim conjE)
  from spec have inv: "store_inv [js ''room_alice_bob'' \<mapsto> ?room]"
    by (elim conjE)
  from store_inv_empty created later inv show ?thesis
    by (simp only: simp_thms)
qed

section \<open>Properties of the messages route\<close>

text \<open>
  C9: when \<^verbatim>\<open>getServerSession\<close> gives no session, or a session without a user id (a
  missing or empty id), the GET handler answers 401 Unauthorized whatever the store holds,
  and the POST handler answers 401 Unauthorized, returns the store as it was, and
  triggers nothing on the relay, whatever the store and the body of the request are.
\<close>

theorem unauthorized_before_store:
  "\<not> truthy (session_user_id session) \<Longrightarrow>
     GET rooms (Resolved session) otherUserId = Error_response (js ''Unauthorized'') 401
     \<and> POST rooms (Resolved session) body pusher uuid now_room now_message
         = (Error_response (js ''Unauthorized'') 401, rooms, [])"
proof (cases "session_user session")
  case None
  then show ?thesis
    by (simp add: GET_def POST_def session_user_id_def)
next
  case (Some u)
  assume "\<not> truthy (session_user_id session)"
  with Some show ?thesis
    by (cases "id_user u") (simp_all add: truthy_def GET_def POST_def session_user_id_def)
qed

theorem unauthorized_before_store_witness:
  "\<not> truthy (session_user_id no_session_user)
   \<and> \<not> truthy (session_user_id None)
   \<and> GET example_rooms (Resolved no_session_user) (Some bob)
       = Error_response (js ''Unauthorized'') 401
   \<and> POST example_rooms (Resolved None)
        (Resolved \<lparr>receiverId_body = Some bob, encryptedContent_body = Some (js ''abcd'')\<rparr>)
        (\<lambda>t. True) (js ''m3'') 3 3
       = (Error_response (js ''Unauthorized'') 401, example_rooms, [])"
proof -
  have h1: "\<not> truthy (session_user_id no_session_user)"
    by (simp add: truthy_def session_user_id_def session_user_def no_session_user_def)
  have h2: "\<not> truthy (session_user_id None)"
    by (simp add: truthy_def session_user_id_def session_user_def)
  from h1 h2
    unauthorized_before_store[OF h1, of example_rooms "Some bob", THEN conjunct1]
    unauthorized_before_store[OF h2, of example_rooms _
      "Resolved \<lparr>receiverId_body = Some bob, encryptedContent_body = Some (js ''abcd'')\<rparr>"
      "\<lambda>t. True" "js ''m3''" 3 3, THEN conjunct2]
  show ?thesis by (simp only: simp_thms)
qed

text \<open>An authenticated POST, for comparison, does reach the store.\<close>

lemma authorized_POST_appends:
  "\<exists>message rooms' triggers.
     POST Map.empty
       (Resolved (Some \<lparr>user = Some \<lparr>id_user = Some alice, name_user = js ''Alice''\<rparr>\<rparr>))
       (Resolved \<lparr>receiverId_body = Some bob, encryptedContent_body = Some (js ''abcd'')\<rparr>)
       (\<lambda>t. True) (js ''m1'') 1 2
     = (Message_response message, rooms', triggers)
     \<and> getMessages rooms' (js ''room_alice_bob'') default_limit = [message]"
proof -
  have key: "store_getRoomId alice bob = js ''room_alice_bob''"
    by (simp add: store_getRoomId_min_max alice_def bob_def js_def min_def max_def)
  have ne: "alice \<noteq> []" "bob \<noteq> []" "js ''abcd'' \<noteq> []"
    by (simp_all add: alice_def bob_def js_def)
  show ?thesis
    by (simp add: POST_def session_user_def getOrCreateRoom_def key addMessage_def ne
        getMessages_def slice_from_def default_limit_def Let_def)
qed

section \<open>Properties of the chat window's message list\<close>

lemma id_msg_decryptMessage: "id_msg (decryptMessage dfr cur m) = id_msg m"
  by (simp add: decryptMessage_def Let_def split: option.splits)

lemma id_msg_json_message: "id_msg (json_message m) = id_msg m"
  by (simp add: json_message_def)

lemma ids_fetchMessages_set:
  "map id_msg (messages_client (fetchMessages_set dfr cur st ms)) = map id_msg ms"
  by (simp add: fetchMessages_set_def id_msg_decryptMessage id_msg_json_message comp_def)

lemma decrypting_fetchMessages_set:
  "decrypting (fetchMessages_set dfr cur st ms) = decrypting st"
  by (simp add: fetchMessages_set_def)

lemma list_ex_ids: "list_ex (\<lambda>m. id_msg m = x) ms \<longleftrightarrow> x \<in> set (map id_msg ms)"
  by (auto simp: list_ex_iff)

lemma distinct_handleNewMessage:
  "distinct (map id_msg (messages_client st)) \<Longrightarrow>
   distinct (map id_msg (messages_client (handleNewMessage st m)))"
  by (simp add: handleNewMessage_def Let_def)

lemma distinct_decrypted_then:
  "distinct (map id_msg (messages_client st)) \<Longrightarrow>
   distinct (map id_msg (messages_client (decrypted_then dfr cur st i)))"
  by (simp add: decrypted_then_def Let_def list_ex_ids id_msg_decryptMessage)

lemma distinct_sendMessage_insert:
  "distinct (map id_msg (messages_client st)) \<Longrightarrow>
   \<not> list_ex (\<lambda>m. id_msg m = id_msg d) (messages_client st) \<Longrightarrow>
   distinct (map id_msg (messages_client (sendMessage_insert st d t)))"
  by (simp add: sendMessage_insert_def messageWithContent_def list_ex_ids)

lemma distinct_run:
  "distinct (map id_msg (messages_client st)) \<Longrightarrow> writes_distinct dfr cur st evs \<Longrightarrow>
   distinct (map id_msg (messages_client (run dfr cur st evs)))"
proof (induction evs arbitrary: st)
  case Nil
  then show ?case by simp
next
  case (Cons e es)
  have "distinct (map id_msg (messages_client (step dfr cur st e)))"
  proof (cases e)
    case (New_message m)
    with Cons.prems show ?thesis by (simp add: distinct_handleNewMessage)
  next
    case (Decryption_done i)
    with Cons.prems show ?thesis by (simp add: distinct_decrypted_then)
  next
    case (Local_insert d t)
    with Cons.prems show ?thesis by (simp add: distinct_sendMessage_insert)
  next
    case (Fetched ms)
    with Cons.prems show ?thesis by (simp add: ids_fetchMessages_set)
  qed
  with Cons show ?case by simp
qed

text \<open>
  The ids the component knows: those in the list and those being decrypted.  No event
  forgets one, but a fetched answer that lacks it.
\<close>

lemma ids_remove_nth:
  "i < length xs \<Longrightarrow>
   set (map f xs) = insert (f (xs ! i)) (set (map f (take i xs @ drop (Suc i) xs)))"
proof -
  assume "i < length xs"
  then have "xs = take i xs @ xs ! i # drop (Suc i) xs"
    by (simp add: id_take_nth_drop)
  then have "map f xs = map f (take i xs @ xs ! i # drop (Suc i) xs)"
    by simp
  then have "set (map f xs) = set (map f (take i xs @ xs ! i # drop (Suc i) xs))"
    by simp
  then show ?thesis by simp
qed

lemma known_handleNewMessage: "known st \<subseteq> known (handleNewMessage st m)"
  by (auto simp: known_def handleNewMessage_def Let_def)

lemma known_sendMessage_insert: "known st \<subseteq> known (sendMessage_insert st d t)"
  by (auto simp: known_def sendMessage_insert_def)

lemma known_decrypted_then: "known st \<subseteq> known (decrypted_then dfr cur st i)"
proof (cases "i < length (decrypting st)")
  case True
  let ?rest = "take i (decrypting st) @ drop (Suc i) (decrypting st)"
  let ?d = "decryptMessage dfr cur (decrypting st ! i)"
  have dec: "set (map id_msg (decrypting st)) = insert (id_msg ?d) (set (map id_msg ?rest))"
    using ids_remove_nth[OF True, of id_msg] by (simp only: id_msg_decryptMessage)
  have msgs: "set (map id_msg (messages_client (decrypted_then dfr cur st i))) =
      insert (id_msg ?d) (set (map id_msg (messages_client st)))"
    using True by (auto simp: decrypted_then_def Let_def list_ex_ids)
  have rest: "decrypting (decrypted_then dfr cur st i) = ?rest"
    using True by (simp add: decrypted_then_def Let_def)
  show ?thesis
    unfolding known_def msgs rest using dec by blast
next
  case False
  then show ?thesis by (simp add: decrypted_then_def)
qed

lemma known_fetchMessages_set:
  "k \<in> known st \<Longrightarrow> k \<in> set (map id_msg ms) \<Longrightarrow> k \<in> known (fetchMessages_set dfr cur st ms)"
  unfolding known_def ids_fetchMessages_set decrypting_fetchMessages_set by blast

lemma known_step: "k \<in> known st \<Longrightarrow> keeps k [e] \<Longrightarrow> k \<in> known (step dfr cur st e)"
proof (cases e)
  case (New_message m)
  assume "k \<in> known st"
  with New_message show ?thesis using known_handleNewMessage[of st m] by auto
next
  case (Decryption_done i)
  assume "k \<in> known st"
  with Decryption_done show ?thesis using known_decrypted_then[of st dfr cur i] by auto
next
  case (Local_insert d t)
  assume "k \<in> known st"
  with Local_insert show ?thesis using known_sendMessage_insert[of st d t] by auto
next
  case (Fetched ms)
  assume "k \<in> known st" and "keeps k [e]"
  with Fetched show ?thesis by (simp add: known_fetchMessages_set)
qed

lemma known_run: "k \<in> known st \<Longrightarrow> keeps k evs \<Longrightarrow> k \<in> known (run dfr cur st evs)"
proof (induction evs arbitrary: st)
  case Nil
  then show ?case by simp
next
  case (Cons e es)
  from Cons.prems have "keeps k [e]" and rest: "keeps k es" by simp_all
  with Cons.prems(1) have "k \<in> known (step dfr cur st e)"
    by (simp only: known_step)
  with rest show ?case using Cons.IH by simp
qed

lemma known_New_message: "id_msg m \<in> known (step dfr cur st (New_message m))"
  by (auto simp: known_def handleNewMessage_def Let_def list_ex_ids)

lemma run_append: "run dfr cur st (xs @ ys) = run dfr cur (run dfr cur st xs) ys"
  by (induction xs arbitrary: st) simp_all

lemma delivered_known:
  "keeps (id_msg m) after \<Longrightarrow>
   id_msg m \<in> known (run dfr cur st (before @ New_message m # after))"
proof -
  assume k: "keeps (id_msg m) after"
  have "id_msg m \<in> known (step dfr cur (run dfr cur st before) (New_message m))"
    by (rule known_New_message)
  from this k have "id_msg m \<in> known (run dfr cur (step dfr cur (run dfr cur st before)
      (New_message m)) after)"
    by (rule known_run)
  then show ?thesis by (simp add: run_append)
qed

lemma one_copy:
  "distinct (map f xs) \<Longrightarrow> k \<in> set (map f xs) \<Longrightarrow> length (filter (\<lambda>x. f x = k) xs) = 1"
proof (induction xs)
  case Nil
  then show ?case by simp
next
  case (Cons x xs)
  show ?case
  proof (cases "f x = k")
    case True
    with Cons.prems have "k \<notin> f ` set xs" by auto
    then have "filter (\<lambda>x. f x = k) xs = []"
      unfolding filter_empty_conv by blast
    with True show ?thesis by simp
  next
    case False
    with Cons show ?thesis by simp
  qed
qed

lemma at_most_one_copy:
  "distinct (map f xs) \<Longrightarrow> length (filter (\<lambda>x. f x = k) xs) \<le> 1"
proof (cases "k \<in> set (map f xs)")
  case True
  assume "distinct (map f xs)"
  with True show ?thesis by (simp add: one_copy)
next
  case False
  then have "filter (\<lambda>x. f x = k) xs = []"
    unfolding filter_empty_conv by auto
  then show ?thesis by simp
qed

text \<open>
  C2, as the claim states it, fails twice.  When a new-message event for a message
  reaches the sender's window before the answer of the POST, the local insert appends
  the message a second time.  And when the answer of a fetch that was under way replaces
  the list after a message was delivered, the final list has no copy of the message.
\<close>

theorem local_insert_duplicates:
  "map id_msg (messages_client (run decrypt_fails alice empty_client
      [New_message (messageWithContent example_message (js ''hi'')),
       Decryption_done 0,
       Local_insert example_message (js ''hi'')]))
   = [js ''m1'', js ''m1'']
   \<and> messages_client (run decrypt_fails bob empty_client
      [New_message (messageWithContent example_message (js ''hi'')),
       Decryption_done 0,
       Fetched []])
   = []"
  by (simp add: empty_client_def handleNewMessage_def decrypted_then_def decryptMessage_def
      sendMessage_insert_def fetchMessages_set_def messageWithContent_def truthy_def
      example_message_def js_def)

text \<open>
  C2, amended: from a list with at most one entry per id, every sequence of new-message
  events of the socket, of local inserts whose id is not yet in the list and of fetched
  answers with pairwise distinct ids leaves at most one entry per id.  A message that was
  delivered, however many times, has exactly one entry in the final list when every
  decryption has completed and no later fetched answer lacks it.
\<close>

theorem reconciler_one_copy:
  assumes "distinct (map id_msg (messages_client st))"
      and "writes_distinct dfr cur st evs"
  shows "distinct (map id_msg (messages_client (run dfr cur st evs)))
     \<and> length (filter (\<lambda>x. id_msg x = k) (messages_client (run dfr cur st evs))) \<le> 1
     \<and> (evs = before @ New_message m # after \<and> keeps (id_msg m) after
          \<and> decrypting (run dfr cur st evs) = [] \<longrightarrow>
          length (filter (\<lambda>x. id_msg x = id_msg m) (messages_client (run dfr cur st evs))) = 1)"
proof -
  let ?final = "run dfr cur st evs"
  have d: "distinct (map id_msg (messages_client ?final))"
    using assms by (rule distinct_run)
  then have most: "length (filter (\<lambda>x. id_msg x = k) (messages_client ?final)) \<le> 1"
    by (rule at_most_one_copy)
  have "length (filter (\<lambda>x. id_msg x = id_msg m) (messages_client ?final)) = 1"
    if "evs = before @ New_message m # after" and "keeps (id_msg m) after"
      and "decrypting ?final = []"
  proof -
    from that(2) have "id_msg m \<in> known (run dfr cur st (before @ New_message m # after))"
      by (rule delivered_known)
    with that(1) have "id_msg m \<in> known ?final" by simp
    with that(3) have "id_msg m \<in> set (map id_msg (messages_client ?final))"
      by (simp add: known_def)
    with d show ?thesis by (rule one_copy)
  qed
  with d most show ?thesis by blast
qed

theorem reconciler_one_copy_witness:
  "distinct (map id_msg (messages_client empty_client))
   \<and> writes_distinct decrypt_fails bob empty_client example_events
   \<and> example_events =
       [Fetched [], New_message (messageWithContent example_message (js ''hi''))]
       @ New_message (messageWithContent example_message (js ''hi''))
       # [Decryption_done 0, Decryption_done 0, Fetched [example_message],
          Local_insert example_reply (js ''ok'')]
   \<and> keeps (id_msg (messageWithContent example_message (js ''hi'')))
        [Decryption_done 0, Decryption_done 0, Fetched [example_message],
         Local_insert example_reply (js ''ok'')]
   \<and> decrypting (run decrypt_fails bob empty_client example_events) = []
   \<and> distinct (map id_msg (messages_client (run decrypt_fails bob empty_client example_events)))
   \<and> length (filter (\<lambda>x. id_msg x = id_msg (messageWithContent example_message (js ''hi'')))
        (messages_client (run decrypt_fails bob empty_client example_events))) = 1"
proof -
  let ?m = "messageWithContent example_message (js ''hi'')"
  let ?after = "[Decryption_done 0, Decryption_done 0, Fetched [example_message],
                 Local_insert example_reply (js ''ok'')]"
  have h1: "distinct (map id_msg (messages_client empty_client))"
    by (simp add: empty_client_def)
  have h2: "writes_distinct decrypt_fails bob empty_client example_events"
    by (simp add: example_events_def empty_client_def handleNewMessage_def decrypted_then_def
        decryptMessage_def sendMessage_insert_def fetchMessages_set_def json_message_def
        decrypt_fails_def messageWithContent_def truthy_def example_message_def
        example_reply_def alice_def bob_def js_def)
  have h3: "example_events = [Fetched [], New_message ?m] @ New_message ?m # ?after"
    by (simp add: example_events_def)
  have h4: "keeps (id_msg ?m) ?after"
    by (simp add: messageWithContent_def)
  have h5: "decrypting (run decrypt_fails bob empty_client example_events) = []"
    by (simp add: example_events_def empty_client_def handleNewMessage_def decrypted_then_def
        decryptMessage_def sendMessage_insert_def fetchMessages_set_def messageWithContent_def
        truthy_def js_def)
  note spec = reconciler_one_copy[OF h1 h2, of "js ''m1''" "[Fetched [], New_message ?m]" ?m
      ?after]
  from spec have d: "distinct (map id_msg
      (messages_client (run decrypt_fails bob empty_client example_events)))"
    by (rule conjunct1)
  from spec[THEN conjunct2, THEN conjunct2] h3 h4 h5
  have one: "length (filter (\<lambda>x. id_msg x = id_msg ?m)
        (messages_client (run decrypt_fails bob empty_client example_events))) = 1"
    by (simp only: simp_thms)
  from h1 h2 h3 h4 h5 d one show ?thesis
    by (simp only: simp_thms)
qed

end
